theory Spec2Isabelle
  imports Main
begin

section \<open>The store: table \<open>user\<close> behind \<open>get_db()\<close>\<close>

text \<open>
  One row of table \<open>user\<close>. The views read the columns \<open>id\<close>, \<open>username\<close> and
  \<open>password\<close> (\<^verbatim>\<open>user['id']\<close>, \<^verbatim>\<open>user['password']\<close>); the field names carry the
  suffix \<open>_col\<close> because \<open>id\<close> is a constant of HOL.
\<close>

record user_row =
  id_col :: int
  username_col :: string
  password_col :: string

text \<open>
  Modelled from the spec: the schema of table \<open>user\<close> (\<^verbatim>\<open>schema.sql\<close> is opened by
  \<^verbatim>\<open>init_db\<close> but is not among the sources). The spec gives it as
  \<^verbatim>\<open>user(id PK autoincrement, username TEXT UNIQUE NOT NULL, password TEXT NOT NULL)\<close>.
  The database is the list of rows of that table, in insertion order, and the largest id
  the table ever handed out (SQLite's \<^verbatim>\<open>sqlite_sequence\<close> entry of an
  autoincrement key).
\<close>

record database =
  user_table :: "user_row list"
  user_seq :: int

datatype failure =
  BadRequestKeyError string
  | IntegrityError string

text \<open>
  \<^verbatim>\<open>db.execute('SELECT ... FROM user WHERE username = ?', (username,)).fetchone()\<close>:
  the first matching row, or \<open>None\<close>.
\<close>

definition select_by_username :: "database \<Rightarrow> string \<Rightarrow> user_row option" where
  "select_by_username d username =
     find (\<lambda>r. username_col r = username) (user_table d)"

text \<open>
  \<^verbatim>\<open>db.execute('SELECT * FROM user WHERE id = ?', (user_id,)).fetchone()\<close>.
\<close>

definition select_by_id :: "database \<Rightarrow> int \<Rightarrow> user_row option" where
  "select_by_id d user_id = find (\<lambda>r. id_col r = user_id) (user_table d)"

text \<open>
  The id an autoincrement key gives the next row: one more than the largest id in the
  table and the largest id ever handed out.
\<close>

definition next_id :: "database \<Rightarrow> int" where
  "next_id d = 1 + fold max (map id_col (user_table d)) (user_seq d)"

text \<open>
  \<^verbatim>\<open>db.execute('INSERT INTO user (username, password) VALUES (?, ?)', ...)\<close> followed by
  \<^verbatim>\<open>db.commit()\<close>. The \<open>UNIQUE\<close> constraint on \<open>username\<close> makes the statement raise
  \<^verbatim>\<open>sqlite3.IntegrityError\<close> when a row with that username is stored; nothing is
  written then.
\<close>

definition insert_user :: "database \<Rightarrow> string \<Rightarrow> string \<Rightarrow> failure + database" where
  "insert_user d username password =
     (if select_by_username d username \<noteq> None
      then Inl (IntegrityError ''UNIQUE constraint failed: user.username'')
      else Inr (d\<lparr>user_table := user_table d @
                     [\<lparr>id_col = next_id d, username_col = username,
                       password_col = password\<rparr>],
                  user_seq := next_id d\<rparr>))"

text \<open>
  The database is shared between requests, and \<^verbatim>\<open>register\<close> runs two statements on
  it. \<open>commit_others cs d\<close> is the database after other connections have run the
  \<^verbatim>\<open>INSERT\<close> of \<^verbatim>\<open>register\<close> for the (username, password hash) pairs \<open>cs\<close>, in that
  order; an insert that violates the constraint writes nothing.
\<close>

fun commit_others :: "(string \<times> string) list \<Rightarrow> database \<Rightarrow> database" where
  "commit_others [] d = d"
| "commit_others ((u, h) # cs) d =
     commit_others cs (case insert_user d u h of Inl e \<Rightarrow> d | Inr d' \<Rightarrow> d')"

section \<open>Requests, responses and the state a view works on\<close>

text \<open>
  \<^verbatim>\<open>request.method\<close> (field \<open>http_method\<close>) and \<^verbatim>\<open>request.form\<close>. Indexing the form
  with a key it does not hold raises \<^verbatim>\<open>BadRequestKeyError\<close>.
\<close>

record request =
  http_method :: string
  form :: "string \<rightharpoonup> string"

text \<open>
  What a view returns: \<^verbatim>\<open>redirect(url_for(endpoint))\<close> or
  \<^verbatim>\<open>render_template(name)\<close>.
\<close>

datatype response =
  Redirect string
  | Render string

text \<open>
  The state the views of \<^verbatim>\<open>auth.py\<close> read and write: the database, the session (a
  dictionary; the only key written here is \<^verbatim>\<open>'user_id'\<close>), \<^verbatim>\<open>g.user\<close>, and the
  messages handed to \<^verbatim>\<open>flash\<close>, oldest first. Flask keeps pending flash messages
  in the session cookie under a key of its own; here they are a list beside the
  session, and \<open>session\<close> is the dictionary as the code of \<^verbatim>\<open>auth.py\<close> reads and
  writes it. The record is extensible, so a view of another module can keep state of its
  own beside these fields.
\<close>

record world =
  db :: database
  session :: "string \<rightharpoonup> int"
  g_user :: "user_row option"
  flashes :: "string list"

type_synonym 'z result = "(failure + response) \<times> 'z world_scheme"

definition flash :: "string \<Rightarrow> 'z world_scheme \<Rightarrow> 'z world_scheme" where
  "flash message w = w\<lparr>flashes := flashes w @ [message]\<rparr>"

section \<open>The views of \<^verbatim>\<open>auth.py\<close>\<close>

text \<open>
  \<^verbatim>\<open>register\<close>. \<open>generate_password_hash\<close> is werkzeug's function as it runs in this
  request (with the salt it draws). \<open>concurrent\<close> lists the inserts other connections
  commit between this request's \<^verbatim>\<open>SELECT\<close> and its \<^verbatim>\<open>INSERT\<close>; it is \<open>[]\<close> when the
  request runs alone. An exception leaves the view as \<open>Inl\<close>: nothing in
  \<^verbatim>\<open>register\<close> catches one.
\<close>

definition register ::
  "(string \<Rightarrow> string) \<Rightarrow> (string \<times> string) list \<Rightarrow> request \<Rightarrow> 'z world_scheme
     \<Rightarrow> 'z result" where
  "register generate_password_hash concurrent req w =
     (if http_method req = ''POST'' then
        (case form req ''username'' of
           None \<Rightarrow> (Inl (BadRequestKeyError ''username''), w)
         | Some username \<Rightarrow>
        (case form req ''password'' of
           None \<Rightarrow> (Inl (BadRequestKeyError ''password''), w)
         | Some password \<Rightarrow>
           let error =
             (if username = [] then Some ''Username is required.''
              else if password = [] then Some ''Password is required.''
              else if select_by_username (db w) username \<noteq> None
                then Some (''User '' @ username @ '' is already registered.'')
              else None)
           in (case error of
                 None \<Rightarrow>
                   let d = commit_others concurrent (db w)
                   in (case insert_user d username (generate_password_hash password) of
                         Inl e \<Rightarrow> (Inl e, w\<lparr>db := d\<rparr>)
                       | Inr d' \<Rightarrow> (Inr (Redirect ''auth.login''), w\<lparr>db := d'\<rparr>))
               | Some message \<Rightarrow>
                   (Inr (Render ''auth/register.html''), flash message w))))
      else (Inr (Render ''auth/register.html''), w))"

text \<open>
  \<^verbatim>\<open>login\<close>. \<open>check_password_hash\<close> is werkzeug's function. \<^verbatim>\<open>session.clear()\<close>
  followed by \<^verbatim>\<open>session['user_id'] = user['id']\<close> leaves the dictionary with that
  one key.
\<close>

definition login ::
  "(string \<Rightarrow> string \<Rightarrow> bool) \<Rightarrow> request \<Rightarrow> 'z world_scheme \<Rightarrow> 'z result" where
  "login check_password_hash req w =
     (if http_method req = ''POST'' then
        (case form req ''username'' of
           None \<Rightarrow> (Inl (BadRequestKeyError ''username''), w)
         | Some username \<Rightarrow>
        (case form req ''password'' of
           None \<Rightarrow> (Inl (BadRequestKeyError ''password''), w)
         | Some password \<Rightarrow>
           (case select_by_username (db w) username of
              None \<Rightarrow> (Inr (Render ''auth/login.html''), flash ''Incorrect username.'' w)
            | Some user \<Rightarrow>
                if \<not> check_password_hash (password_col user) password
                then (Inr (Render ''auth/login.html''), flash ''Incorrect password.'' w)
                else (Inr (Redirect ''index''),
                      w\<lparr>session := Map.empty(''user_id'' \<mapsto> id_col user)\<rparr>))))
      else (Inr (Render ''auth/login.html''), w))"

text \<open>
  \<^verbatim>\<open>load_logged_in_user\<close>, registered with \<^verbatim>\<open>before_app_request\<close>.
\<close>

definition load_logged_in_user :: "'z world_scheme \<Rightarrow> 'z world_scheme" where
  "load_logged_in_user w =
     (case session w ''user_id'' of
        None \<Rightarrow> w\<lparr>g_user := None\<rparr>
      | Some user_id \<Rightarrow> w\<lparr>g_user := select_by_id (db w) user_id\<rparr>)"

text \<open>\<^verbatim>\<open>logout\<close>: \<^verbatim>\<open>session.clear()\<close>, then the redirect.\<close>

definition logout :: "'z world_scheme \<Rightarrow> 'z result" where
  "logout w = (Inr (Redirect ''index''), w\<lparr>session := Map.empty\<rparr>)"

text \<open>
  \<^verbatim>\<open>login_required(view)\<close> is \<^verbatim>\<open>wrapped_view\<close>; \<open>kwargs\<close> are the keyword arguments it
  receives.
\<close>

definition login_required ::
  "('kw \<Rightarrow> 'z world_scheme \<Rightarrow> 'z result) \<Rightarrow> 'kw \<Rightarrow> 'z world_scheme \<Rightarrow> 'z result" where
  "login_required view kwargs w =
     (if g_user w = None then (Inr (Redirect ''auth.login''), w)
      else view kwargs w)"

text \<open>
  One request: the functions registered with \<^verbatim>\<open>before_app_request\<close> run first, then
  the view the URL was routed to.
\<close>

definition handle_request :: "('z world_scheme \<Rightarrow> 'z result) \<Rightarrow> 'z world_scheme \<Rightarrow> 'z result" where
  "handle_request view w = view (load_logged_in_user w)"

section \<open>Example data\<close>

text \<open>
  A toy stand-in for werkzeug's hasher, with the salt fixed: enough to run the views on
  concrete requests.
\<close>

definition toy_generate_password_hash :: "string \<Rightarrow> string" where
  "toy_generate_password_hash password = ''salt$'' @ password"

definition toy_check_password_hash :: "string \<Rightarrow> string \<Rightarrow> bool" where
  "toy_check_password_hash pwhash password = (pwhash = ''salt$'' @ password)"

definition post :: "string \<Rightarrow> string \<Rightarrow> request" where
  "post username password =
     \<lparr>http_method = ''POST'',
      form = [''username'' \<mapsto> username, ''password'' \<mapsto> password]\<rparr>"

definition alice_row :: user_row where
  "alice_row =
     \<lparr>id_col = 1, username_col = ''alice'', password_col = ''salt$secret1''\<rparr>"

text \<open>A fresh database and browser, and the same after alice has registered.\<close>

definition fresh_world :: world where
  "fresh_world =
     \<lparr>db = \<lparr>user_table = [], user_seq = 0\<rparr>, session = Map.empty,
      g_user = None, flashes = []\<rparr>"

definition alice_world :: world where
  "alice_world =
     \<lparr>db = \<lparr>user_table = [alice_row], user_seq = 1\<rparr>, session = Map.empty,
      g_user = None, flashes = []\<rparr>"

text \<open>
  A state with a counter beside the fields of \<open>world\<close>, and a view that counts its
  calls and renders the template named by its argument.
\<close>

record counted_world = world +
  calls :: nat

definition counting_view ::
  "string \<Rightarrow> counted_world \<Rightarrow> (failure + response) \<times> counted_world" where
  "counting_view name w = (Inr (Render name), w\<lparr>calls := calls w + 1\<rparr>)"

definition counted :: "(string \<rightharpoonup> int) \<Rightarrow> counted_world" where
  "counted s =
     \<lparr>db = \<lparr>user_table = [alice_row], user_seq = 1\<rparr>, session = s,
      g_user = None, flashes = [], calls = 0\<rparr>"

section \<open>Facts about the store\<close>

lemma fold_max_lower: "(a::int) \<le> fold max xs a"
  by (induction xs arbitrary: a) (auto intro: order_trans [OF max.cobounded2])

lemma fold_max_upper: "x \<in> set xs \<Longrightarrow> (x::int) \<le> fold max xs a"
proof (induction xs arbitrary: a)
  case Nil
  then show ?case by simp
next
  case (Cons y ys)
  show ?case
  proof (cases "x = y")
    case True
    have "x \<le> max y a" using True by simp
    also have "\<dots> \<le> fold max ys (max y a)" by (rule fold_max_lower)
    finally show ?thesis by simp
  next
    case False
    with Cons.prems have "x \<in> set ys" by simp
    then show ?thesis using Cons.IH by simp
  qed
qed

lemma next_id_fresh: "r \<in> set (user_table d) \<Longrightarrow> id_col r < next_id d"
  using fold_max_upper [of "id_col r" "map id_col (user_table d)" "user_seq d"]
  by (simp add: next_id_def)

lemma select_by_id_next_id: "find (\<lambda>r. id_col r = next_id d) (user_table d) = None"
proof -
  have "id_col r \<noteq> next_id d" if "r \<in> set (user_table d)" for r
    using next_id_fresh [OF that] by simp
  then show ?thesis by (simp add: find_None_iff)
qed

lemma select_by_username_None_iff:
  "select_by_username d u = None \<longleftrightarrow> (\<forall>r \<in> set (user_table d). username_col r \<noteq> u)"
  by (auto simp: select_by_username_def find_None_iff)

lemma select_by_username_Some:
  "select_by_username d u = Some r \<Longrightarrow> r \<in> set (user_table d) \<and> username_col r = u"
  by (auto simp: select_by_username_def find_Some_iff)

lemma select_by_id_Some:
  "select_by_id d i = Some r \<Longrightarrow> r \<in> set (user_table d) \<and> id_col r = i"
  by (auto simp: select_by_id_def find_Some_iff)

lemma select_by_id_None_iff:
  "select_by_id d i = None \<longleftrightarrow> (\<forall>r \<in> set (user_table d). id_col r \<noteq> i)"
  by (auto simp: select_by_id_def find_None_iff)

lemma find_append_None:
  "find P xs = None \<Longrightarrow> find P (xs @ ys) = find P ys"
  by (induction xs) (auto split: if_splits)

lemma insert_user_fresh:
  "select_by_username d u = None \<Longrightarrow>
   insert_user d u h =
     Inr (d\<lparr>user_table := user_table d @
               [\<lparr>id_col = next_id d, username_col = u, password_col = h\<rparr>],
            user_seq := next_id d\<rparr>)"
  by (simp add: insert_user_def)

lemma select_new_by_username:
  "select_by_username d u = None \<Longrightarrow>
   select_by_username
     (d\<lparr>user_table := user_table d @ [\<lparr>id_col = i, username_col = u, password_col = h\<rparr>],
        user_seq := s\<rparr>) u
   = Some \<lparr>id_col = i, username_col = u, password_col = h\<rparr>"
  by (simp add: select_by_username_def find_append_None)

lemma select_new_by_id:
  "select_by_id
     (d\<lparr>user_table := user_table d @
          [\<lparr>id_col = next_id d, username_col = u, password_col = h\<rparr>],
        user_seq := s\<rparr>) (next_id d)
   = Some \<lparr>id_col = next_id d, username_col = u, password_col = h\<rparr>"
  by (simp add: select_by_id_def find_append_None select_by_id_next_id)

text \<open>
  The constraints of the schema hold in every database the inserts build from the empty
  one: usernames are unique, ids are unique and none exceeds the sequence.
\<close>

lemma insert_user_keeps_constraints:
  assumes "distinct (map username_col (user_table d))"
    and "distinct (map id_col (user_table d))"
    and "insert_user d u h = Inr d'"
  shows "distinct (map username_col (user_table d')) \<and>
         distinct (map id_col (user_table d'))"
proof -
  from assms(3) have none: "select_by_username d u = None"
    and d': "d' = d\<lparr>user_table := user_table d @
               [\<lparr>id_col = next_id d, username_col = u, password_col = h\<rparr>],
            user_seq := next_id d\<rparr>"
    by (auto simp: insert_user_def split: if_splits)
  from none have "u \<notin> username_col ` set (user_table d)"
    by (auto simp: select_by_username_None_iff)
  moreover have "next_id d \<notin> id_col ` set (user_table d)"
  proof
    assume "next_id d \<in> id_col ` set (user_table d)"
    then obtain r where "r \<in> set (user_table d)" and "id_col r = next_id d" by auto
    with next_id_fresh [of r d] show False by simp
  qed
  ultimately show ?thesis using assms(1,2) by (simp add: d')
qed

section \<open>Facts about hydration\<close>

lemma load_logged_in_user_db: "db (load_logged_in_user w) = db w"
  by (simp add: load_logged_in_user_def split: option.splits)

lemma load_logged_in_user_session: "session (load_logged_in_user w) = session w"
  by (simp add: load_logged_in_user_def split: option.splits)

lemma load_logged_in_user_g_user:
  "g_user (load_logged_in_user w) =
     (case session w ''user_id'' of None \<Rightarrow> None
      | Some user_id \<Rightarrow> select_by_id (db w) user_id)"
  by (simp add: load_logged_in_user_def split: option.splits)

text \<open>A form without one of the two fields makes both views raise, whatever the state.\<close>

lemma register_missing_field:
  "http_method req = ''POST'' \<Longrightarrow> form req ''username'' = None \<Longrightarrow>
   register generate_password_hash concurrent req w =
     (Inl (BadRequestKeyError ''username''), w)"
  by (simp add: register_def)

lemma login_missing_field:
  "http_method req = ''POST'' \<Longrightarrow> form req ''username'' = None \<Longrightarrow>
   login check_password_hash req w = (Inl (BadRequestKeyError ''username''), w)"
  by (simp add: login_def)

section \<open>Register, then log in\<close>

text \<open>
  C1. A register POST with a non-empty username that no stored row carries and a
  non-empty password redirects to the login view and appends one row, with the next id
  of the table. A login POST with the same two fields, on the state the registration
  left, redirects to the index and leaves a session that holds the new row's id under
  \<open>user_id\<close> and nothing else; the request after that loads the new row into
  \<^verbatim>\<open>g.user\<close>. The hasher is assumed to verify the hash it produced for this
  password; the registration runs with no insert of another connection in between.
\<close>

theorem register_then_login:
  assumes "http_method req = ''POST''" "http_method req' = ''POST''"
    and "form req ''username'' = Some username" "form req ''password'' = Some password"
    and "form req' ''username'' = Some username" "form req' ''password'' = Some password"
    and "username \<noteq> []" "password \<noteq> []"
    and "select_by_username (db w) username = None"
    and "check_password_hash (generate_password_hash password) password"
  shows
    "let new_user = \<lparr>id_col = next_id (db w), username_col = username,
                      password_col = generate_password_hash password\<rparr>;
         registered = handle_request (register generate_password_hash [] req) w;
         logged_in = handle_request (login check_password_hash req') (snd registered)
     in fst registered = Inr (Redirect ''auth.login'') \<and>
        user_table (db (snd registered)) = user_table (db w) @ [new_user] \<and>
        fst logged_in = Inr (Redirect ''index'') \<and>
        session (snd logged_in) = [''user_id'' \<mapsto> id_col new_user] \<and>
        g_user (load_logged_in_user (snd logged_in)) = Some new_user"
proof -
  define new_user where "new_user = \<lparr>id_col = next_id (db w), username_col = username,
                      password_col = generate_password_hash password\<rparr>"
  define d' where "d' = (db w)\<lparr>user_table := user_table (db w) @ [new_user],
                              user_seq := next_id (db w)\<rparr>"
  let ?w0 = "load_logged_in_user w"
  have db0: "db ?w0 = db w"
    by (rule load_logged_in_user_db)
  have reg: "register generate_password_hash [] req ?w0 =
               (Inr (Redirect ''auth.login''), ?w0\<lparr>db := d'\<rparr>)"
    using assms(1,3,4,7,8,9)
    by (simp add: register_def db0 insert_user_fresh d'_def new_user_def Let_def)
  let ?w1 = "load_logged_in_user (?w0\<lparr>db := d'\<rparr>)"
  have db1: "db ?w1 = d'"
    by (simp add: load_logged_in_user_db)
  have sel: "select_by_username d' username = Some new_user"
    unfolding d'_def new_user_def using assms(9) by (rule select_new_by_username)
  have log: "login check_password_hash req' ?w1 =
               (Inr (Redirect ''index''), ?w1\<lparr>session := [''user_id'' \<mapsto> id_col new_user]\<rparr>)"
    using assms(2,5,6,10) by (simp add: login_def db1 sel) (simp add: new_user_def)
  have byid: "select_by_id d' (next_id (db w)) = Some new_user"
    unfolding d'_def new_user_def by (rule select_new_by_id)
  have hyd: "g_user (load_logged_in_user
               (?w1\<lparr>session := [''user_id'' \<mapsto> id_col new_user]\<rparr>)) = Some new_user"
    using byid by (simp add: load_logged_in_user_g_user db1 new_user_def)
  show ?thesis
    unfolding Let_def handle_request_def reg log snd_conv fst_conv
    using hyd by (simp add: new_user_def d'_def)
qed

theorem register_then_login_witness:
  "select_by_username (db fresh_world) ''alice'' = None \<and>
   toy_check_password_hash (toy_generate_password_hash ''secret1'') ''secret1'' \<and>
   fst (handle_request
         (register toy_generate_password_hash [] (post ''alice'' ''secret1''))
         fresh_world) = Inr (Redirect ''auth.login'') \<and>
   fst (handle_request (login toy_check_password_hash (post ''alice'' ''secret1''))
         (snd (handle_request
                (register toy_generate_password_hash [] (post ''alice'' ''secret1''))
                fresh_world))) = Inr (Redirect ''index'') \<and>
   g_user (load_logged_in_user
     (snd (handle_request (login toy_check_password_hash (post ''alice'' ''secret1''))
         (snd (handle_request
                (register toy_generate_password_hash [] (post ''alice'' ''secret1''))
                fresh_world))))) = Some alice_row"
  using register_then_login
    [where req = "post ''alice'' ''secret1''" and req' = "post ''alice'' ''secret1''"
       and username = "''alice''" and password = "''secret1''" and w = fresh_world
       and generate_password_hash = toy_generate_password_hash
       and check_password_hash = toy_check_password_hash]
  by (simp add: Let_def post_def fresh_world_def select_by_username_def next_id_def
      toy_generate_password_hash_def toy_check_password_hash_def alice_row_def)

section \<open>The order of the checks of a registration\<close>

text \<open>
  C2. For a register POST that carries both fields: an empty username gives the one
  message \<open>Username is required.\<close>, whatever the password; otherwise an empty password
  gives \<open>Password is required.\<close>; otherwise a stored row with that username gives
  \<open>User {username} is already registered.\<close>. In each case the form is rendered again
  and the state changes by that one message only. With an empty field the outcome is
  the same for every database.
\<close>

theorem register_validation_order:
  assumes "http_method req = ''POST''"
    and "form req ''username'' = Some username"
    and "form req ''password'' = Some password"
  shows
    "(username = [] \<longrightarrow>
        register generate_password_hash concurrent req w =
          (Inr (Render ''auth/register.html''),
           w\<lparr>flashes := flashes w @ [''Username is required.'']\<rparr>)) \<and>
     (username \<noteq> [] \<and> password = [] \<longrightarrow>
        register generate_password_hash concurrent req w =
          (Inr (Render ''auth/register.html''),
           w\<lparr>flashes := flashes w @ [''Password is required.'']\<rparr>)) \<and>
     (username \<noteq> [] \<and> password \<noteq> [] \<and> select_by_username (db w) username \<noteq> None \<longrightarrow>
        register generate_password_hash concurrent req w =
          (Inr (Render ''auth/register.html''),
           w\<lparr>flashes := flashes w @ [''User '' @ username @ '' is already registered.'']\<rparr>)) \<and>
     (username = [] \<or> password = [] \<longrightarrow>
        fst (register generate_password_hash concurrent req (w\<lparr>db := d\<rparr>)) =
          fst (register generate_password_hash concurrent req w) \<and>
        flashes (snd (register generate_password_hash concurrent req (w\<lparr>db := d\<rparr>))) =
          flashes (snd (register generate_password_hash concurrent req w)))"
  using assms by (auto simp: register_def flash_def)

theorem register_validation_order_witness:
  "register toy_generate_password_hash [] (post [] []) alice_world =
     (Inr (Render ''auth/register.html''),
      alice_world\<lparr>flashes := [''Username is required.'']\<rparr>) \<and>
   register toy_generate_password_hash [] (post ''alice'' []) alice_world =
     (Inr (Render ''auth/register.html''),
      alice_world\<lparr>flashes := [''Password is required.'']\<rparr>) \<and>
   register toy_generate_password_hash [] (post ''alice'' ''secret2'') alice_world =
     (Inr (Render ''auth/register.html''),
      alice_world\<lparr>flashes := [''User alice is already registered.'']\<rparr>) \<and>
   fst (register toy_generate_password_hash [] (post [] [])
          (alice_world\<lparr>db := db fresh_world\<rparr>)) =
     fst (register toy_generate_password_hash [] (post [] []) alice_world)"
  using register_validation_order
      [where req = "post [] []" and username = "[]" and password = "[]"
         and w = alice_world and generate_password_hash = toy_generate_password_hash
         and concurrent = "[]" and d = "db fresh_world"]
    register_validation_order
      [where req = "post ''alice'' []" and username = "''alice''" and password = "[]"
         and w = alice_world and generate_password_hash = toy_generate_password_hash
         and concurrent = "[]" and d = "db fresh_world"]
    register_validation_order
      [where req = "post ''alice'' ''secret2''" and username = "''alice''"
         and password = "''secret2''"
         and w = alice_world and generate_password_hash = toy_generate_password_hash
         and concurrent = "[]" and d = "db fresh_world"]
  by (simp add: post_def alice_world_def alice_row_def select_by_username_def)

section \<open>The outcomes of a login\<close>

text \<open>
  C3. For a login POST that carries both fields: when no stored row has the submitted
  username the message is \<open>Incorrect username.\<close>; when the row's hash does not verify
  the submitted password it is \<open>Incorrect password.\<close>; otherwise the view redirects to
  the index and the session holds the row's id under \<open>user_id\<close> and no other key,
  whatever it held before.
\<close>

theorem login_outcomes:
  assumes "http_method req = ''POST''"
    and "form req ''username'' = Some username"
    and "form req ''password'' = Some password"
  shows
    "(select_by_username (db w) username = None \<longrightarrow>
        login check_password_hash req w =
          (Inr (Render ''auth/login.html''),
           w\<lparr>flashes := flashes w @ [''Incorrect username.'']\<rparr>)) \<and>
     (\<forall>user. select_by_username (db w) username = Some user \<and>
             \<not> check_password_hash (password_col user) password \<longrightarrow>
        login check_password_hash req w =
          (Inr (Render ''auth/login.html''),
           w\<lparr>flashes := flashes w @ [''Incorrect password.'']\<rparr>)) \<and>
     (\<forall>user. select_by_username (db w) username = Some user \<and>
             check_password_hash (password_col user) password \<longrightarrow>
        login check_password_hash req w =
          (Inr (Redirect ''index''), w\<lparr>session := [''user_id'' \<mapsto> id_col user]\<rparr>) \<and>
        (\<forall>k. k \<noteq> ''user_id'' \<longrightarrow> session (snd (login check_password_hash req w)) k = None))"
  using assms by (auto simp: login_def flash_def)

theorem login_outcomes_witness:
  "login toy_check_password_hash (post ''bob'' ''secret1'') alice_world =
     (Inr (Render ''auth/login.html''),
      alice_world\<lparr>flashes := [''Incorrect username.'']\<rparr>) \<and>
   login toy_check_password_hash (post ''alice'' ''wrong'') alice_world =
     (Inr (Render ''auth/login.html''),
      alice_world\<lparr>flashes := [''Incorrect password.'']\<rparr>) \<and>
   login toy_check_password_hash (post ''alice'' ''secret1'')
       (alice_world\<lparr>session := [''stale'' \<mapsto> 7, ''user_id'' \<mapsto> 9]\<rparr>) =
     (Inr (Redirect ''index''), alice_world\<lparr>session := [''user_id'' \<mapsto> 1]\<rparr>)"
  using login_outcomes
      [where req = "post ''bob'' ''secret1''" and username = "''bob''"
         and password = "''secret1''" and w = alice_world
         and check_password_hash = toy_check_password_hash]
    login_outcomes
      [where req = "post ''alice'' ''wrong''" and username = "''alice''"
         and password = "''wrong''" and w = alice_world
         and check_password_hash = toy_check_password_hash]
    login_outcomes
      [where req = "post ''alice'' ''secret1''" and username = "''alice''"
         and password = "''secret1''"
         and w = "alice_world\<lparr>session := [''stale'' \<mapsto> 7, ''user_id'' \<mapsto> 9]\<rparr>"
         and check_password_hash = toy_check_password_hash]
  by (simp add: post_def alice_world_def alice_row_def select_by_username_def
      toy_check_password_hash_def)

section \<open>A uniqueness conflict at the insert\<close>

text \<open>
  C4, as the code has it. When the check of \<^verbatim>\<open>register\<close> found no row with the
  username and the insert then fails on the uniqueness constraint (another connection
  stored that username in between), the view does not handle the failure: the
  \<^verbatim>\<open>IntegrityError\<close> leaves \<^verbatim>\<open>register\<close>, no message is flashed, no form is
  rendered, the session is what it was, and the row the other connection stored stays.
\<close>

theorem register_conflict_propagates:
  assumes "http_method req = ''POST''"
    and "form req ''username'' = Some username"
    and "form req ''password'' = Some password"
    and "username \<noteq> []" "password \<noteq> []"
    and "select_by_username (db w) username = None"
    and "insert_user (commit_others concurrent (db w)) username
           (generate_password_hash password) = Inl e"
  shows
    "register generate_password_hash concurrent req w =
       (Inl e, w\<lparr>db := commit_others concurrent (db w)\<rparr>) \<and>
     e = IntegrityError ''UNIQUE constraint failed: user.username'' \<and>
     flashes (snd (register generate_password_hash concurrent req w)) = flashes w \<and>
     session (snd (register generate_password_hash concurrent req w)) = session w \<and>
     select_by_username (db (snd (register generate_password_hash concurrent req w)))
       username \<noteq> None"
proof -
  have reg: "register generate_password_hash concurrent req w =
       (Inl e, w\<lparr>db := commit_others concurrent (db w)\<rparr>)"
    using assms by (simp add: register_def Let_def)
  have e: "e = IntegrityError ''UNIQUE constraint failed: user.username''"
    and stored: "select_by_username (commit_others concurrent (db w)) username \<noteq> None"
    using assms(7) by (auto simp: insert_user_def split: if_splits)
  show ?thesis unfolding reg using e stored by simp
qed

theorem register_conflict_propagates_witness:
  "select_by_username (db fresh_world) ''alice'' = None \<and>
   register toy_generate_password_hash [(''alice'', ''salt$other'')]
       (post ''alice'' ''secret1'') fresh_world =
     (Inl (IntegrityError ''UNIQUE constraint failed: user.username''),
      fresh_world\<lparr>db := \<lparr>user_table =
         [\<lparr>id_col = 1, username_col = ''alice'', password_col = ''salt$other''\<rparr>],
         user_seq = 1\<rparr>\<rparr>)"
  using register_conflict_propagates
    [where req = "post ''alice'' ''secret1''" and username = "''alice''"
       and password = "''secret1''" and w = fresh_world
       and concurrent = "[(''alice'', ''salt$other'')]"
       and generate_password_hash = toy_generate_password_hash
       and e = "IntegrityError ''UNIQUE constraint failed: user.username''"]
  by (simp add: post_def fresh_world_def select_by_username_def insert_user_def
      next_id_def)

text \<open>
  The conflict is not turned into the message of the pre-check: on a fresh database,
  with another connection storing \<open>alice\<close> between the two statements, the register
  POST for \<open>alice\<close> ends in the \<^verbatim>\<open>IntegrityError\<close>, not in the rendered form, and
  flashes nothing.
\<close>

theorem register_conflict_counterexample:
  "select_by_username (db fresh_world) ''alice'' = None \<and>
   insert_user (commit_others [(''alice'', ''salt$other'')] (db fresh_world)) ''alice''
       (toy_generate_password_hash ''secret1'') =
     Inl (IntegrityError ''UNIQUE constraint failed: user.username'') \<and>
   fst (register toy_generate_password_hash [(''alice'', ''salt$other'')]
          (post ''alice'' ''secret1'') fresh_world) =
     Inl (IntegrityError ''UNIQUE constraint failed: user.username'') \<and>
   fst (register toy_generate_password_hash [(''alice'', ''salt$other'')]
          (post ''alice'' ''secret1'') fresh_world) \<noteq>
     Inr (Render ''auth/register.html'') \<and>
   flashes (snd (register toy_generate_password_hash [(''alice'', ''salt$other'')]
          (post ''alice'' ''secret1'') fresh_world)) = []"
  by (simp add: register_def post_def fresh_world_def select_by_username_def
      insert_user_def Let_def next_id_def)

section \<open>Hydration of the identity\<close>

text \<open>
  C5. \<^verbatim>\<open>load_logged_in_user\<close> always returns (it is a total function of the state)
  and changes \<^verbatim>\<open>g.user\<close> only: to \<open>None\<close> when the session has no \<open>user_id\<close>; to
  \<open>None\<close> when it has one that no stored row carries; and otherwise to a stored row
  with that id.
\<close>

theorem load_logged_in_user_cases:
  "(session w ''user_id'' = None \<longrightarrow> load_logged_in_user w = w\<lparr>g_user := None\<rparr>) \<and>
   (\<forall>user_id. session w ''user_id'' = Some user_id \<and>
       (\<forall>r \<in> set (user_table (db w)). id_col r \<noteq> user_id) \<longrightarrow>
       load_logged_in_user w = w\<lparr>g_user := None\<rparr>) \<and>
   (\<forall>user_id. session w ''user_id'' = Some user_id \<and>
       (\<exists>r \<in> set (user_table (db w)). id_col r = user_id) \<longrightarrow>
       (\<exists>r \<in> set (user_table (db w)). id_col r = user_id \<and>
          load_logged_in_user w = w\<lparr>g_user := Some r\<rparr>))"
proof (intro conjI allI impI)
  assume "session w ''user_id'' = None"
  then show "load_logged_in_user w = w\<lparr>g_user := None\<rparr>"
    by (simp add: load_logged_in_user_def)
next
  fix user_id
  assume "session w ''user_id'' = Some user_id \<and>
       (\<forall>r \<in> set (user_table (db w)). id_col r \<noteq> user_id)"
  then show "load_logged_in_user w = w\<lparr>g_user := None\<rparr>"
    by (simp add: load_logged_in_user_def select_by_id_None_iff [THEN iffD2])
next
  fix user_id
  assume a: "session w ''user_id'' = Some user_id \<and>
       (\<exists>r \<in> set (user_table (db w)). id_col r = user_id)"
  then have "select_by_id (db w) user_id \<noteq> None"
    by (simp add: select_by_id_None_iff)
  then obtain r where r: "select_by_id (db w) user_id = Some r" by blast
  from select_by_id_Some [OF r] a r
  show "\<exists>r \<in> set (user_table (db w)). id_col r = user_id \<and>
          load_logged_in_user w = w\<lparr>g_user := Some r\<rparr>"
    by (auto simp: load_logged_in_user_def)
qed

theorem load_logged_in_user_cases_witness:
  "load_logged_in_user alice_world = alice_world \<and>
   load_logged_in_user (alice_world\<lparr>session := [''user_id'' \<mapsto> 2]\<rparr>) =
     alice_world\<lparr>session := [''user_id'' \<mapsto> 2]\<rparr> \<and>
   load_logged_in_user (alice_world\<lparr>session := [''user_id'' \<mapsto> 1]\<rparr>) =
     alice_world\<lparr>session := [''user_id'' \<mapsto> 1], g_user := Some alice_row\<rparr>"
  using load_logged_in_user_cases [of alice_world]
    load_logged_in_user_cases [of "alice_world\<lparr>session := [''user_id'' \<mapsto> 2]\<rparr>"]
    load_logged_in_user_cases [of "alice_world\<lparr>session := [''user_id'' \<mapsto> 1]\<rparr>"]
  by (simp add: alice_world_def alice_row_def)

section \<open>The guard \<^verbatim>\<open>login_required\<close>\<close>

text \<open>
  C6. With \<^verbatim>\<open>g.user\<close> unset the wrapped view returns the redirect to the login view
  and the state it was given: the result is the same for every view and every
  arguments, so nothing of the view has run. With \<^verbatim>\<open>g.user\<close> set it returns what
  the view returns on the same arguments and the same state.
\<close>

theorem login_required_guard:
  "(g_user w = None \<longrightarrow>
      login_required view kwargs w = (Inr (Redirect ''auth.login''), w) \<and>
      login_required view kwargs w = login_required view' kwargs' w) \<and>
   (g_user w \<noteq> None \<longrightarrow> login_required view kwargs w = view kwargs w)"
  by (simp add: login_required_def)

theorem login_required_guard_witness:
  "handle_request (login_required counting_view ''blog/create.html'') (counted Map.empty) =
     (Inr (Redirect ''auth.login''), counted Map.empty) \<and>
   calls (snd (handle_request (login_required counting_view ''blog/create.html'')
     (counted Map.empty))) = 0 \<and>
   handle_request (login_required counting_view ''blog/create.html'')
       (counted [''user_id'' \<mapsto> 1]) =
     counting_view ''blog/create.html'' (load_logged_in_user (counted [''user_id'' \<mapsto> 1])) \<and>
   fst (handle_request (login_required counting_view ''blog/create.html'')
       (counted [''user_id'' \<mapsto> 1])) = Inr (Render ''blog/create.html'') \<and>
   calls (snd (handle_request (login_required counting_view ''blog/create.html'')
     (counted [''user_id'' \<mapsto> 1]))) = 1"
  using login_required_guard
      [where w = "load_logged_in_user (counted Map.empty)" and view = counting_view
         and kwargs = "''blog/create.html''" and view' = counting_view
         and kwargs' = "''blog/create.html''"]
    login_required_guard
      [where w = "load_logged_in_user (counted [''user_id'' \<mapsto> 1])"
         and view = counting_view and kwargs = "''blog/create.html''"
         and view' = counting_view and kwargs' = "''blog/create.html''"]
  by (simp add: handle_request_def load_logged_in_user_def counted_def counting_view_def
      select_by_id_def alice_row_def)

section \<open>A failed login keeps the session\<close>

text \<open>
  C7. A login POST whose username no stored row carries, or whose password the stored
  hash does not verify, renders the login form again and changes the state by one
  flashed message only: the session, with or without a \<open>user_id\<close>, is the one the
  request came with.
\<close>

theorem login_error_keeps_session:
  assumes "http_method req = ''POST''"
    and "form req ''username'' = Some username"
    and "form req ''password'' = Some password"
    and "select_by_username (db w) username = None \<or>
         (\<exists>user. select_by_username (db w) username = Some user \<and>
            \<not> check_password_hash (password_col user) password)"
  shows
    "fst (login check_password_hash req w) = Inr (Render ''auth/login.html'') \<and>
     session (snd (login check_password_hash req w)) = session w \<and>
     (\<exists>message. snd (login check_password_hash req w) =
        w\<lparr>flashes := flashes w @ [message]\<rparr>)"
  using assms by (auto simp: login_def flash_def)

theorem login_error_keeps_session_witness:
  "select_by_username (db alice_world) ''alice'' = Some alice_row \<and>
   \<not> toy_check_password_hash (password_col alice_row) ''wrong'' \<and>
   fst (login toy_check_password_hash (post ''alice'' ''wrong'')
         (alice_world\<lparr>session := [''user_id'' \<mapsto> 9]\<rparr>)) =
     Inr (Render ''auth/login.html'') \<and>
   session (snd (login toy_check_password_hash (post ''alice'' ''wrong'')
         (alice_world\<lparr>session := [''user_id'' \<mapsto> 9]\<rparr>))) = [''user_id'' \<mapsto> 9]"
  using login_error_keeps_session
    [where req = "post ''alice'' ''wrong''" and username = "''alice''"
       and password = "''wrong''"
       and w = "alice_world\<lparr>session := [''user_id'' \<mapsto> 9]\<rparr>"
       and check_password_hash = toy_check_password_hash]
  by (simp add: post_def alice_world_def alice_row_def select_by_username_def
      toy_check_password_hash_def)

section \<open>Registering a stored username again\<close>

text \<open>
  C8, as the code has it. A register POST whose username a stored row carries never
  redirects and never writes: the form is rendered again and the database, with the
  hash of the stored row, is what it was, for every password. The message is
  \<open>User {username} is already registered.\<close> when the username and the password are
  both non-empty.
\<close>

theorem register_again_rejected:
  assumes "http_method req = ''POST''"
    and "form req ''username'' = Some username"
    and "form req ''password'' = Some password"
    and "select_by_username (db w) username = Some user"
  shows
    "(username \<noteq> [] \<and> password \<noteq> [] \<longrightarrow>
        register generate_password_hash concurrent req w =
          (Inr (Render ''auth/register.html''),
           w\<lparr>flashes := flashes w @
                [''User '' @ username @ '' is already registered.'']\<rparr>)) \<and>
     fst (register generate_password_hash concurrent req w) =
       Inr (Render ''auth/register.html'') \<and>
     db (snd (register generate_password_hash concurrent req w)) = db w \<and>
     select_by_username (db (snd (register generate_password_hash concurrent req w)))
       username = Some user"
  using assms by (auto simp: register_def flash_def)

theorem register_again_rejected_witness:
  "select_by_username (db alice_world) ''alice'' = Some alice_row \<and>
   register toy_generate_password_hash [] (post ''alice'' ''secret2'') alice_world =
     (Inr (Render ''auth/register.html''),
      alice_world\<lparr>flashes := [''User alice is already registered.'']\<rparr>) \<and>
   password_col alice_row = ''salt$secret1''"
  using register_again_rejected
    [where req = "post ''alice'' ''secret2''" and username = "''alice''"
       and password = "''secret2''" and w = alice_world and user = alice_row
       and generate_password_hash = toy_generate_password_hash and concurrent = "[]"]
  by (simp add: post_def alice_world_def alice_row_def select_by_username_def)

text \<open>
  With the empty password the message is the one of the password check, not the
  already-registered one: \<open>alice\<close> is stored, and the POST for \<open>alice\<close> with an empty
  password flashes \<open>Password is required.\<close>
\<close>

theorem register_again_counterexample:
  "select_by_username (db alice_world) ''alice'' = Some alice_row \<and>
   register toy_generate_password_hash [] (post ''alice'' []) alice_world =
     (Inr (Render ''auth/register.html''),
      alice_world\<lparr>flashes := [''Password is required.'']\<rparr>) \<and>
   flashes (snd (register toy_generate_password_hash [] (post ''alice'' []) alice_world))
     \<noteq> [''User alice is already registered.'']"
  by (simp add: register_def post_def alice_world_def alice_row_def
      select_by_username_def flash_def)

section \<open>Logout\<close>

text \<open>
  C9. \<^verbatim>\<open>logout\<close> redirects to the index and empties the session, whatever it held,
  and changes nothing else. On an empty session it returns the same redirect and the
  state it was given; running it twice is running it once; and the request after it
  loads no user.
\<close>

theorem logout_clears_session:
  "fst (logout w) = Inr (Redirect ''index'') \<and>
   session (snd (logout w)) = Map.empty \<and>
   snd (logout w) = w\<lparr>session := Map.empty\<rparr> \<and>
   logout (w\<lparr>session := Map.empty\<rparr>) = (Inr (Redirect ''index''), w\<lparr>session := Map.empty\<rparr>) \<and>
   logout (snd (logout w)) = logout w \<and>
   g_user (load_logged_in_user (snd (logout w))) = None"
  by (simp add: logout_def load_logged_in_user_def)

section \<open>Registration leaves the session alone\<close>

text \<open>
  C10. Whatever the request and the state, and whether \<^verbatim>\<open>register\<close> redirects,
  flashes an error or raises, the session after it is the session before it; so is
  \<^verbatim>\<open>g.user\<close>. A user who holds no session before registering therefore is still
  anonymous on the next request.
\<close>

theorem register_session_unchanged:
  "session (snd (register generate_password_hash concurrent req w)) = session w \<and>
   g_user (snd (register generate_password_hash concurrent req w)) = g_user w \<and>
   (session w ''user_id'' = None \<longrightarrow>
    g_user (load_logged_in_user
      (snd (register generate_password_hash concurrent req w))) = None)"
  by (simp add: register_def flash_def load_logged_in_user_def Let_def
      split: option.splits sum.splits)

theorem register_session_unchanged_witness:
  "session fresh_world ''user_id'' = None \<and>
   fst (register toy_generate_password_hash [] (post ''alice'' ''secret1'') fresh_world)
     = Inr (Redirect ''auth.login'') \<and>
   g_user (load_logged_in_user
     (snd (register toy_generate_password_hash [] (post ''alice'' ''secret1'') fresh_world)))
     = None"
  using register_session_unchanged
    [of toy_generate_password_hash "[]" "post ''alice'' ''secret1''" fresh_world]
  by (simp add: register_def fresh_world_def post_def insert_user_def
      select_by_username_def Let_def load_logged_in_user_def)

end
